theory Spec2Isabelle
  imports Main
begin

section \<open>Python values, exceptions and the operations the connector applies to them\<close>

text \<open>
  The connector handles parsed JSON payloads and the values it builds from them (the
  headers dictionary, identifiers, \<open>None\<close>).  They are modelled by one datatype of Python
  values.  A dictionary is an association list read with \<open>map_of\<close>.  JSON numbers with a
  fractional part are not modelled: the Graph API's names and identifiers are strings.
\<close>

datatype pyval =
    PNone
  | PBool bool
  | PInt int
  | PStr string
  | PList "pyval list"
  | PDict "(string \<times> pyval) list"

text \<open>
  An exception is a value.  \<open>KeyError\<close> carries the missing key, \<open>TypeError\<close> and
  \<open>RuntimeError\<close> their message, and \<open>External\<close> is any exception raised inside a library
  (\<open>requests\<close>, \<open>msal\<close>, \<open>json\<close>, \<open>urllib\<close>), with its class name and its message.
\<close>

datatype exn =
    KeyError string
  | TypeError string
  | RuntimeError string
  | External string string

definition quote :: string where
  "quote = [CHR 0x27]"

text \<open>\<open>str(e)\<close>, as the f-string \<open>f'...{e}'\<close> of every handler computes it.\<close>

fun str_exn :: "exn \<Rightarrow> string" where
  "str_exn (KeyError k) = quote @ k @ quote"
| "str_exn (TypeError m) = m"
| "str_exn (RuntimeError m) = m"
| "str_exn (External c m) = m"

fun type_name :: "pyval \<Rightarrow> string" where
  "type_name PNone = ''NoneType''"
| "type_name (PBool b) = ''bool''"
| "type_name (PInt n) = ''int''"
| "type_name (PStr s) = ''str''"
| "type_name (PList xs) = ''list''"
| "type_name (PDict kvs) = ''dict''"

text \<open>\<open>v[k]\<close> for a string key \<open>k\<close>: only a dictionary holding the key answers.\<close>

fun subscript :: "pyval \<Rightarrow> string \<Rightarrow> exn + pyval" where
  "subscript (PDict kvs) k =
     (case map_of kvs k of None \<Rightarrow> Inl (KeyError k) | Some v \<Rightarrow> Inr v)"
| "subscript (PList xs) k =
     Inl (TypeError ''list indices must be integers or slices, not str'')"
| "subscript (PStr s) k =
     Inl (TypeError (''string indices must be integers, not '' @ quote @ ''str'' @ quote))"
| "subscript v k =
     Inl (TypeError (quote @ type_name v @ quote @ '' object is not subscriptable''))"

text \<open>
  \<open>for item in v\<close>: a list gives its elements, a dictionary its keys, a string its
  characters; nothing else can be iterated.
\<close>

fun iterate :: "pyval \<Rightarrow> exn + pyval list" where
  "iterate (PList xs) = Inr xs"
| "iterate (PDict kvs) = Inr (map (\<lambda>kv. PStr (fst kv)) kvs)"
| "iterate (PStr s) = Inr (map (\<lambda>c. PStr [c]) s)"
| "iterate v = Inl (TypeError (quote @ type_name v @ quote @ '' object is not iterable''))"

fun is_prefix :: "string \<Rightarrow> string \<Rightarrow> bool" where
  "is_prefix [] s = True"
| "is_prefix (c # cs) [] = False"
| "is_prefix (c # cs) (d # ds) = (c = d \<and> is_prefix cs ds)"

fun is_substring :: "string \<Rightarrow> string \<Rightarrow> bool" where
  "is_substring k [] = (k = [])"
| "is_substring k (c # cs) = (is_prefix k (c # cs) \<or> is_substring k cs)"

text \<open>
  \<open>k in v\<close> for a string \<open>k\<close>: key membership in a dictionary, element membership in a
  list, substring test in a string.
\<close>

fun contains :: "string \<Rightarrow> pyval \<Rightarrow> exn + bool" where
  "contains k (PDict kvs) = Inr (k \<in> set (map fst kvs))"
| "contains k (PList xs) = Inr (PStr k \<in> set xs)"
| "contains k (PStr s) = Inr (is_substring k s)"
| "contains k v =
     Inl (TypeError (''argument of type '' @ quote @ type_name v @ quote @ '' is not iterable''))"

text \<open>The truth value \<open>if file_id:\<close> tests.\<close>

fun truthy :: "pyval \<Rightarrow> bool" where
  "truthy PNone = False"
| "truthy (PBool b) = b"
| "truthy (PInt n) = (n \<noteq> 0)"
| "truthy (PStr s) = (s \<noteq> [])"
| "truthy (PList xs) = (xs \<noteq> [])"
| "truthy (PDict kvs) = (kvs \<noteq> [])"

text \<open>\<open>'Bearer ' + access_token\<close>: only a string can be appended to a string.\<close>

fun str_concat :: "string \<Rightarrow> pyval \<Rightarrow> exn + string" where
  "str_concat s (PStr t) = Inr (s @ t)"
| "str_concat s v =
     Inl (TypeError (''can only concatenate str (not \"'' @ type_name v @ ''\") to str''))"

subsection \<open>Formatting a value inside an f-string\<close>

fun digit :: "nat \<Rightarrow> char" where
  "digit n = (''0123456789'' ! (n mod 10))"

fun nat_dec :: "nat \<Rightarrow> string" where
  "nat_dec n = (if n < 10 then [digit n] else nat_dec (n div 10) @ [digit n])"

definition int_dec :: "int \<Rightarrow> string" where
  "int_dec i = (if i < 0 then ''-'' @ nat_dec (nat (- i)) else nat_dec (nat i))"

fun join_comma :: "string list \<Rightarrow> string" where
  "join_comma [] = []"
| "join_comma [s] = s"
| "join_comma (s # t # ss) = s @ '', '' @ join_comma (t # ss)"

text \<open>
  \<open>repr\<close> of a string is written for strings without quotes, backslashes or control
  characters (single quotes around the text); \<open>repr\<close>'s escapes are not modelled.  The
  formatting of \<open>None\<close>, booleans, integers and strings themselves is exact.
\<close>

fun py_repr :: "pyval \<Rightarrow> string"
  and repr_elems :: "pyval list \<Rightarrow> string list"
  and repr_items :: "(string \<times> pyval) list \<Rightarrow> string list" where
  "py_repr PNone = ''None''"
| "py_repr (PBool b) = (if b then ''True'' else ''False'')"
| "py_repr (PInt n) = int_dec n"
| "py_repr (PStr s) = quote @ s @ quote"
| "py_repr (PList xs) = ''['' @ join_comma (repr_elems xs) @ '']''"
| "py_repr (PDict kvs) = ''{'' @ join_comma (repr_items kvs) @ ''}''"
| "repr_elems [] = []"
| "repr_elems (x # xs) = py_repr x # repr_elems xs"
| "repr_items [] = []"
| "repr_items ((k, v) # kvs) = (quote @ k @ quote @ '': '' @ py_repr v) # repr_items kvs"

text \<open>\<open>f'{v}'\<close>, that is \<open>str(v)\<close>.\<close>

fun fmt :: "pyval \<Rightarrow> string" where
  "fmt (PStr s) = s"
| "fmt v = py_repr v"

section \<open>The environment: identity provider, storage API, local file system\<close>

text \<open>
  A response of \<open>requests.get\<close> is what parsing its body gives (\<open>response.json()\<close> and
  \<open>json.loads(response.content)\<close>): the parsed payload, or the decoder's exception.
\<close>

datatype response = Unparseable exn | Payload pyval

fun json_of :: "response \<Rightarrow> exn + pyval" where
  "json_of (Unparseable e) = Inl e"
| "json_of (Payload v) = Inr v"

text \<open>
  The environment answers the calls that leave the program: \<open>acquire_token_for_client\<close>
  of the MSAL application (a result dictionary, or an exception), \<open>requests.get\<close> on a URL
  with headers (a response, or a transport exception) and \<open>urlretrieve\<close>.  It answers the
  same call the same way throughout one run.  The interpreter's recursion limit is not
  modelled.
\<close>

record world =
  acquire_token_for_client :: "exn + pyval"
  requests_get :: "string \<Rightarrow> pyval \<Rightarrow> exn + response"
  urlretrieve :: "pyval \<Rightarrow> pyval \<Rightarrow> exn + unit"

text \<open>Everything observable a run does, in order.\<close>

datatype event =
    TokenRequest
  | Get string pyval
  | Retrieve pyval pyval
  | Print string

text \<open>A method: from the events so far to a result (or the exception raised) and the events after it.\<close>

type_synonym 'a prog = "event list \<Rightarrow> (exn + 'a) \<times> event list"

definition returns :: "'a \<Rightarrow> 'a prog" where
  "returns x log = (Inr x, log)"

definition lift :: "exn + 'a \<Rightarrow> 'a prog" where
  "lift r log = (r, log)"

definition emit :: "event \<Rightarrow> unit prog" where
  "emit ev log = (Inr (), log @ [ev])"

definition then_do :: "'a prog \<Rightarrow> ('a \<Rightarrow> 'b prog) \<Rightarrow> 'b prog" where
  "then_do m f log = (case m log of (Inl e, log') \<Rightarrow> (Inl e, log') | (Inr x, log') \<Rightarrow> f x log')"

definition and_then :: "exn + 'a \<Rightarrow> ('a \<Rightarrow> exn + 'b) \<Rightarrow> exn + 'b" where
  "and_then r f = (case r of Inl e \<Rightarrow> Inl e | Inr x \<Rightarrow> f x)"

definition erro :: string where
  "erro = ''Erro ao baixar arquivo: ''"

text \<open>\<open>except Exception as e: raise RuntimeError(f'Erro ao baixar arquivo: {e}')\<close>\<close>

definition reraise :: "exn \<Rightarrow> exn" where
  "reraise e = RuntimeError (erro @ str_exn e)"

definition rewrap :: "'a prog \<Rightarrow> 'a prog" where
  "rewrap m log = (case m log of (Inl e, log') \<Rightarrow> (Inl (reraise e), log') | (Inr x, log') \<Rightarrow> (Inr x, log'))"

definition http_get :: "world \<Rightarrow> string \<Rightarrow> pyval \<Rightarrow> response prog" where
  "http_get w u headers = then_do (emit (Get u headers)) (\<lambda>_. lift (requests_get w u headers))"

section \<open>sharepoint\_connector.py\<close>

text \<open>The instance: \<open>self.url\<close>, the base URL of the site's drives, fixed by the constructor.\<close>

record downloader =
  url :: string

subsection \<open>get\_token\<close>

definition token_headers :: "world \<Rightarrow> exn + pyval" where
  "token_headers w =
     and_then (acquire_token_for_client w) (\<lambda>result.
     and_then (subscript result ''access_token'') (\<lambda>access_token.
     and_then (str_concat ''Bearer '' access_token) (\<lambda>bearer.
     Inr (PDict [(''Authorization'', PStr bearer)]))))"

definition get_token :: "world \<Rightarrow> pyval prog" where
  "get_token w = rewrap (then_do (emit TokenRequest) (\<lambda>_. lift (token_headers w)))"

subsection \<open>get\_response\_id\<close>

text \<open>The loop \<open>for item in result_json['value']\<close>.\<close>

fun match_id :: "pyval list \<Rightarrow> string \<Rightarrow> exn + pyval" where
  "match_id [] folder_match = Inr PNone"
| "match_id (item # rest) folder_match =
     and_then (subscript item ''name'') (\<lambda>name.
       if name = PStr folder_match then subscript item ''id''
       else match_id rest folder_match)"

definition get_response_id :: "response \<Rightarrow> string \<Rightarrow> pyval prog" where
  "get_response_id result_json folder_match =
     rewrap (lift (
       and_then (json_of result_json) (\<lambda>parsed.
       and_then (subscript parsed ''value'') (\<lambda>v.
       and_then (iterate v) (\<lambda>items.
       match_id items folder_match)))))"

subsection \<open>get\_drive\_id\<close>

definition get_drive_id :: "world \<Rightarrow> downloader \<Rightarrow> string \<Rightarrow> (pyval \<times> pyval) prog" where
  "get_drive_id w self folder_match =
     rewrap (
       then_do (get_token w) (\<lambda>headers.
       then_do (http_get w (url self) headers) (\<lambda>response.
       then_do (get_response_id response ''Documents'') (\<lambda>drive_id.
       then_do (http_get w (url self @ fmt drive_id @ ''/root/children'') headers) (\<lambda>drive_response.
       then_do (get_response_id drive_response folder_match) (\<lambda>root_folder_id.
       returns (drive_id, root_folder_id)))))))"

subsection \<open>find\_file\<close>

text \<open>
  The recursion follows whatever the storage API answers, so it need not end: the first
  argument bounds the depth of the calls, and \<open>None\<close> is a run that needed more.
\<close>

type_synonym 'a run = "event list \<Rightarrow> ((exn + 'a) \<times> event list) option"

definition download_key :: string where
  "download_key = ''@microsoft.graph.downloadUrl''"

text \<open>
  The loop \<open>for item in folder_result['value']\<close>; \<open>rec\<close> is the recursive call
  \<open>self.find_file(drive_id, sub_folder_id, target_file_name, headers)\<close>.
\<close>

fun for_items :: "(pyval \<Rightarrow> pyval run) \<Rightarrow> pyval list \<Rightarrow> string \<Rightarrow> pyval run" where
  "for_items rec [] target_file_name log = Some (Inr PNone, log)"
| "for_items rec (item # rest) target_file_name log =
     (case contains download_key item of
        Inl e \<Rightarrow> Some (Inl e, log)
      | Inr is_file \<Rightarrow>
          if is_file then
            (case subscript item ''name'' of
               Inl e \<Rightarrow> Some (Inl e, log)
             | Inr name \<Rightarrow>
                 if name = PStr target_file_name then
                   (case subscript item ''id'' of
                      Inl e \<Rightarrow> Some (Inl e, log)
                    | Inr file_id \<Rightarrow> Some (Inr file_id, log))
                 else for_items rec rest target_file_name log)
          else
            (case contains ''folder'' item of
               Inl e \<Rightarrow> Some (Inl e, log)
             | Inr is_folder \<Rightarrow>
                 if is_folder then
                   (case subscript item ''id'' of
                      Inl e \<Rightarrow> Some (Inl e, log)
                    | Inr sub_folder_id \<Rightarrow>
                        (case rec sub_folder_id log of
                           None \<Rightarrow> None
                         | Some (Inl e, log') \<Rightarrow> Some (Inl e, log')
                         | Some (Inr file_id, log') \<Rightarrow>
                             if truthy file_id then Some (Inr file_id, log')
                             else for_items rec rest target_file_name log'))
                 else for_items rec rest target_file_name log))"

definition children_url :: "downloader \<Rightarrow> pyval \<Rightarrow> pyval \<Rightarrow> string" where
  "children_url self drive_id folder_id =
     url self @ ''/'' @ fmt drive_id @ ''/items/'' @ fmt folder_id @ ''/children''"

definition rewrap_run :: "'a run \<Rightarrow> 'a run" where
  "rewrap_run m log =
     (case m log of
        None \<Rightarrow> None
      | Some (Inl e, log') \<Rightarrow> Some (Inl (reraise e), log')
      | Some (Inr x, log') \<Rightarrow> Some (Inr x, log'))"

text \<open>The request and the parsing that precede the loop: the items listed, or the exception.\<close>

definition folder_items :: "world \<Rightarrow> string \<Rightarrow> pyval \<Rightarrow> exn + pyval list" where
  "folder_items w folder_url headers =
     (case requests_get w folder_url headers of
        Inl e \<Rightarrow> Inl e
      | Inr folder_response \<Rightarrow>
          and_then (json_of folder_response) (\<lambda>folder_result.
          and_then (subscript folder_result ''value'') iterate))"

fun find_file ::
  "nat \<Rightarrow> world \<Rightarrow> downloader \<Rightarrow> pyval \<Rightarrow> pyval \<Rightarrow> string \<Rightarrow> pyval \<Rightarrow> pyval run" where
  "find_file 0 w self drive_id folder_id target_file_name headers log = None"
| "find_file (Suc n) w self drive_id folder_id target_file_name headers log =
     rewrap_run (\<lambda>log0.
       let folder_url = children_url self drive_id folder_id;
           log1 = log0 @ [Get folder_url headers]
       in case folder_items w folder_url headers of
            Inl e \<Rightarrow> Some (Inl e, log1)
          | Inr items \<Rightarrow>
              for_items (\<lambda>sub_folder_id lg.
                  find_file n w self drive_id sub_folder_id target_file_name headers lg)
                items target_file_name log1) log"

subsection \<open>download\_file\<close>

definition baixado :: string where
  "baixado = ''Arquivo baixado com sucesso!''"

text \<open>The message \<open>Arquivo n\~ao encontrado.\<close>, in UTF-8.\<close>

definition nao_encontrado :: string where
  "nao_encontrado = ''Arquivo n'' @ [CHR 0xC3, CHR 0xA3] @ ''o encontrado.''"

definition run_of :: "'a prog \<Rightarrow> 'a run" where
  "run_of m log = Some (m log)"

definition then_run :: "'a run \<Rightarrow> ('a \<Rightarrow> 'b run) \<Rightarrow> 'b run" where
  "then_run m f log =
     (case m log of
        None \<Rightarrow> None
      | Some (Inl e, log') \<Rightarrow> Some (Inl e, log')
      | Some (Inr x, log') \<Rightarrow> f x log')"

definition fetch_and_save :: "world \<Rightarrow> downloader \<Rightarrow> pyval \<Rightarrow> pyval \<Rightarrow> pyval \<Rightarrow> pyval prog" where
  "fetch_and_save w self drive_id file_id headers =
     then_do (http_get w (url self @ ''/'' @ fmt drive_id @ ''/items/'' @ fmt file_id) headers) (\<lambda>resp.
     then_do (lift (json_of resp)) (\<lambda>file_result.
     then_do (lift (subscript file_result download_key)) (\<lambda>file_download_url.
     then_do (lift (subscript file_result ''name'')) (\<lambda>name.
     then_do (emit (Retrieve file_download_url name)) (\<lambda>_.
     then_do (lift (urlretrieve w file_download_url name)) (\<lambda>_.
     then_do (emit (Print baixado)) (\<lambda>_.
     returns PNone)))))))"

definition download_file :: "nat \<Rightarrow> world \<Rightarrow> downloader \<Rightarrow> string \<Rightarrow> string \<Rightarrow> pyval run" where
  "download_file fuel w self target_file_name folder_match =
     rewrap_run (
       then_run (run_of (get_token w)) (\<lambda>headers.
       then_run (run_of (get_drive_id w self folder_match)) (\<lambda>(drive_id, root_folder_id).
       then_run (find_file fuel w self drive_id root_folder_id target_file_name headers) (\<lambda>file_id.
         if truthy file_id then run_of (fetch_and_save w self drive_id file_id headers)
         else run_of (then_do (emit (Print nao_encontrado)) (\<lambda>_. returns PNone))))))"

section \<open>spc\_connector.py\<close>

text \<open>
  The older copy of the class.  Its methods have the same bodies; its handlers print
  and fall off the end of the method, which then returns \<open>None\<close>:
  \<open>except Exception as e: print(f'Error: {e}')\<close>.
\<close>

definition swallow_run :: "pyval run \<Rightarrow> pyval run" where
  "swallow_run m log =
     (case m log of
        None \<Rightarrow> None
      | Some (Inl e, log') \<Rightarrow> Some (Inr PNone, log' @ [Print (''Error: '' @ str_exn e)])
      | Some (Inr x, log') \<Rightarrow> Some (Inr x, log'))"

fun find_file_spc ::
  "nat \<Rightarrow> world \<Rightarrow> downloader \<Rightarrow> pyval \<Rightarrow> pyval \<Rightarrow> string \<Rightarrow> pyval \<Rightarrow> pyval run" where
  "find_file_spc 0 w self drive_id folder_id target_file_name headers log = None"
| "find_file_spc (Suc n) w self drive_id folder_id target_file_name headers log =
     swallow_run (\<lambda>log0.
       let folder_url = children_url self drive_id folder_id;
           log1 = log0 @ [Get folder_url headers]
       in case folder_items w folder_url headers of
            Inl e \<Rightarrow> Some (Inl e, log1)
          | Inr items \<Rightarrow>
              for_items (\<lambda>sub_folder_id lg.
                  find_file_spc n w self drive_id sub_folder_id target_file_name headers lg)
                items target_file_name log1) log"

section \<open>Notions of the specification\<close>

subsection \<open>Well-formed listings\<close>

text \<open>
  A listing payload is a dictionary whose \<open>value\<close> is a list of entries; an entry is a
  dictionary with a \<open>name\<close> and an \<open>id\<close>.
\<close>

fun entries_of :: "pyval \<Rightarrow> pyval list option" where
  "entries_of (PDict kvs) =
     (case map_of kvs ''value'' of Some (PList items) \<Rightarrow> Some items | _ \<Rightarrow> None)"
| "entries_of v = None"

fun is_entry :: "pyval \<Rightarrow> bool" where
  "is_entry (PDict kvs) = (map_of kvs ''name'' \<noteq> None \<and> map_of kvs ''id'' \<noteq> None)"
| "is_entry v = False"

fun entry_id :: "pyval \<Rightarrow> pyval" where
  "entry_id (PDict kvs) = (case map_of kvs ''id'' of Some v \<Rightarrow> v | None \<Rightarrow> PNone)"
| "entry_id v = PNone"

fun named :: "string \<Rightarrow> pyval \<Rightarrow> bool" where
  "named n (PDict kvs) = (map_of kvs ''name'' = Some (PStr n))"
| "named n v = False"

text \<open>
  The resolver of the specification: the identifier of the first entry, in listing order,
  whose name is exactly \<open>n\<close>; \<open>None\<close> when there is none.
\<close>

definition first_named :: "pyval list \<Rightarrow> string \<Rightarrow> pyval" where
  "first_named items n =
     (case find (named n) items of None \<Rightarrow> PNone | Some item \<Rightarrow> entry_id item)"

subsection \<open>Folder trees\<close>

text \<open>
  What lies under a folder: files, folders with their own children, folders whose listing
  request fails, and entries that are neither (no direct-download URL, no folder marker).
  Each carries its name and its identifier.
\<close>

datatype entry =
    File string string
  | Folder string string "entry list"
  | Broken string string
  | Other string string

text \<open>How an item of a listing payload shows each kind, as \<open>find_file\<close> reads it.\<close>

definition file_item :: "pyval \<Rightarrow> string \<Rightarrow> string \<Rightarrow> bool" where
  "file_item item n i =
     (contains download_key item = Inr True \<and> subscript item ''name'' = Inr (PStr n)
      \<and> subscript item ''id'' = Inr (PStr i))"

definition folder_item :: "pyval \<Rightarrow> string \<Rightarrow> string \<Rightarrow> bool" where
  "folder_item item n i =
     (contains download_key item = Inr False \<and> contains ''folder'' item = Inr True
      \<and> subscript item ''name'' = Inr (PStr n) \<and> subscript item ''id'' = Inr (PStr i))"

definition other_item :: "pyval \<Rightarrow> string \<Rightarrow> string \<Rightarrow> bool" where
  "other_item item n i =
     (contains download_key item = Inr False \<and> contains ''folder'' item = Inr False
      \<and> subscript item ''name'' = Inr (PStr n) \<and> subscript item ''id'' = Inr (PStr i))"

text \<open>
  The storage API presents the entries \<open>es\<close> as the items of a listing: item by item, and
  for each folder the listing request on its identifier gives items that present its
  children (or fails, for a \<open>Broken\<close> one).
\<close>

fun presents ::
  "world \<Rightarrow> downloader \<Rightarrow> pyval \<Rightarrow> pyval \<Rightarrow> pyval list \<Rightarrow> entry list \<Rightarrow> bool" where
  "presents w self d h [] [] = True"
| "presents w self d h (item # items) (File n i # es) =
     (file_item item n i \<and> presents w self d h items es)"
| "presents w self d h (item # items) (Folder n i cs # es) =
     (folder_item item n i
      \<and> (case folder_items w (children_url self d (PStr i)) h of
            Inl e \<Rightarrow> False
          | Inr sub \<Rightarrow> presents w self d h sub cs)
      \<and> presents w self d h items es)"
| "presents w self d h (item # items) (Broken n i # es) =
     (folder_item item n i
      \<and> isl (folder_items w (children_url self d (PStr i)) h)
      \<and> presents w self d h items es)"
| "presents w self d h (item # items) (Other n i # es) =
     (other_item item n i \<and> presents w self d h items es)"
| "presents w self d h items es = False"

text \<open>The folder \<open>root\<close> of drive \<open>d\<close> holds the tree \<open>es\<close>.\<close>

definition serves ::
  "world \<Rightarrow> downloader \<Rightarrow> pyval \<Rightarrow> pyval \<Rightarrow> pyval \<Rightarrow> entry list \<Rightarrow> bool" where
  "serves w self d h root es =
     (case folder_items w (children_url self d root) h of
        Inl e \<Rightarrow> False
      | Inr items \<Rightarrow> presents w self d h items es)"

subsection \<open>The search of the specification\<close>

text \<open>
  The specification's algorithm on the children of a folder, in listing order: a file
  named exactly \<open>t\<close> ends the search with its identifier; a folder is searched and a find
  inside it ends the search; anything else is skipped.  Beside the outcome stands the list
  of the folders whose children were listed, in the order of the listing calls.  A folder
  whose listing fails aborts the search.
\<close>

datatype outcome = Found string | NotFound | Aborted

fun search :: "string \<Rightarrow> entry list \<Rightarrow> outcome \<times> string list" where
  "search t [] = (NotFound, [])"
| "search t (File n i # es) = (if n = t then (Found i, []) else search t es)"
| "search t (Folder n i cs # es) =
     (case search t cs of
        (Found f, v) \<Rightarrow> (Found f, i # v)
      | (Aborted, v) \<Rightarrow> (Aborted, i # v)
      | (NotFound, v) \<Rightarrow> (case search t es of (r, v') \<Rightarrow> (r, i # v @ v')))"
| "search t (Broken n i # es) = (Aborted, [i])"
| "search t (Other n i # es) = search t es"

text \<open>How deep the folders nest: the calls \<open>find_file\<close> needs below the first.\<close>

fun depth :: "entry list \<Rightarrow> nat" where
  "depth [] = 0"
| "depth (File n i # es) = depth es"
| "depth (Folder n i cs # es) = max (Suc (depth cs)) (depth es)"
| "depth (Broken n i # es) = max 1 (depth es)"
| "depth (Other n i # es) = depth es"

text \<open>The identifiers of the files named \<open>t\<close>, anywhere in the tree.\<close>

fun target_ids :: "string \<Rightarrow> entry list \<Rightarrow> string list" where
  "target_ids t [] = []"
| "target_ids t (File n i # es) = (if n = t then i # target_ids t es else target_ids t es)"
| "target_ids t (Folder n i cs # es) = target_ids t cs @ target_ids t es"
| "target_ids t (Broken n i # es) = target_ids t es"
| "target_ids t (Other n i # es) = target_ids t es"

text \<open>The identifiers of all folders of the tree, parents before children, in listing order.\<close>

fun folder_ids :: "entry list \<Rightarrow> string list" where
  "folder_ids [] = []"
| "folder_ids (File n i # es) = folder_ids es"
| "folder_ids (Folder n i cs # es) = i # folder_ids cs @ folder_ids es"
| "folder_ids (Broken n i # es) = i # folder_ids es"
| "folder_ids (Other n i # es) = folder_ids es"

text \<open>Every listing of the tree succeeds.\<close>

fun no_broken :: "entry list \<Rightarrow> bool" where
  "no_broken [] = True"
| "no_broken (File n i # es) = no_broken es"
| "no_broken (Folder n i cs # es) = (no_broken cs \<and> no_broken es)"
| "no_broken (Broken n i # es) = False"
| "no_broken (Other n i # es) = no_broken es"

text \<open>
  What \<open>find_file\<close> returns for each outcome: the identifier, \<open>None\<close>, or a raised
  \<open>RuntimeError\<close>.
\<close>

fun agrees :: "outcome \<Rightarrow> exn + pyval \<Rightarrow> bool" where
  "agrees (Found i) r = (r = Inr (PStr i))"
| "agrees NotFound r = (r = Inr PNone)"
| "agrees Aborted r = (case r of Inl (RuntimeError m) \<Rightarrow> True | _ \<Rightarrow> False)"

text \<open>The listing requests for the folders \<open>ids\<close>, one each, in order.\<close>

definition listing_events :: "downloader \<Rightarrow> pyval \<Rightarrow> pyval \<Rightarrow> string list \<Rightarrow> event list" where
  "listing_events self d h ids = map (\<lambda>i. Get (children_url self d (PStr i)) h) ids"

subsection \<open>Example data\<close>

definition listing_with_duplicates :: pyval where
  "listing_with_duplicates = PDict [(''value'', PList [
     PDict [(''name'', PStr ''documents''), (''id'', PStr ''a'')],
     PDict [(''id'', PStr ''b''), (''name'', PStr ''Documents''), (''folder'', PDict [])],
     PDict [(''name'', PStr ''Documents''), (''id'', PStr ''c'')]])]"

text \<open>
  Scenario A of the specification: the library \<open>Documents\<close> holds the folder \<open>Reports\<close>,
  which holds \<open>Q1.xlsx\<close> and the folder \<open>Archive\<close> with \<open>Q1.xlsx\<close> and \<open>Q2.xlsx\<close>.  Any
  other URL is answered by an error payload, as the Graph API does.
\<close>

definition site :: downloader where
  "site = \<lparr>url = ''https://graph.microsoft.com/v1.0/sites/s1/drives/''\<rparr>"

definition file_entry :: "string \<Rightarrow> string \<Rightarrow> pyval" where
  "file_entry n i = PDict [(''name'', PStr n), (''id'', PStr i),
     (download_key, PStr (''https://download.example/'' @ i)), (''file'', PDict [])]"

definition folder_entry :: "string \<Rightarrow> string \<Rightarrow> pyval" where
  "folder_entry n i = PDict [(''name'', PStr n), (''id'', PStr i),
     (''folder'', PDict [(''childCount'', PInt 2)])]"

definition listing :: "pyval list \<Rightarrow> pyval" where
  "listing items = PDict [(''value'', PList items)]"

definition error_payload :: pyval where
  "error_payload = PDict [(''error'', PDict [(''code'', PStr ''itemNotFound'')])]"

definition bearer :: pyval where
  "bearer = PDict [(''Authorization'', PStr ''Bearer tok'')]"

definition scenario_store :: "(string \<times> pyval) list" where
  "scenario_store =
    [(url site, listing [folder_entry ''Documents'' ''d1'']),
     (url site @ ''d1/root/children'', listing [folder_entry ''Reports'' ''r1'']),
     (children_url site (PStr ''d1'') (PStr ''r1''),
        listing [file_entry ''Q1.xlsx'' ''f1'', folder_entry ''Archive'' ''a1'']),
     (children_url site (PStr ''d1'') (PStr ''a1''),
        listing [file_entry ''Q1.xlsx'' ''f2'', file_entry ''Q2.xlsx'' ''f3'']),
     (url site @ ''/d1/items/f1'', file_entry ''Q1.xlsx'' ''f1'')]"

definition scenario_world :: world where
  "scenario_world = \<lparr>
     acquire_token_for_client = Inr (PDict [(''access_token'', PStr ''tok'')]),
     requests_get = (\<lambda>u h. case map_of scenario_store u of
                        None \<Rightarrow> Inr (Payload error_payload)
                      | Some p \<Rightarrow> Inr (Payload p)),
     urlretrieve = (\<lambda>u f. Inr ())\<rparr>"

definition reports_tree :: "entry list" where
  "reports_tree = [File ''Q1.xlsx'' ''f1'',
                   Folder ''Archive'' ''a1'' [File ''Q1.xlsx'' ''f2'', File ''Q2.xlsx'' ''f3'']]"

section \<open>Properties\<close>

subsection \<open>The resource resolver\<close>

lemma match_id_entries:
  "list_all is_entry items \<Longrightarrow> match_id items n = Inr (first_named items n)"
proof (induction items)
  case Nil
  show ?case by (simp add: first_named_def)
next
  case (Cons item rest)
  from Cons.prems obtain kvs nm i where item: "item = PDict kvs"
    and nm: "map_of kvs ''name'' = Some nm" and i: "map_of kvs ''id'' = Some i"
    by (cases item) auto
  from Cons have IH: "match_id rest n = Inr (first_named rest n)" by simp
  show ?case
    using item nm i IH by (simp add: and_then_def first_named_def)
qed

lemma get_response_id_entries:
  assumes "entries_of p = Some items" and "list_all is_entry items"
  shows "get_response_id (Payload p) n log = (Inr (first_named items n), log)"
proof -
  from assms(1) obtain kvs
    where p: "p = PDict kvs" and v: "map_of kvs ''value'' = Some (PList items)"
    by (cases p) (auto split: option.splits pyval.splits)
  show ?thesis
    using p v match_id_entries [OF assms(2), of n]
    by (simp add: get_response_id_def rewrap_def lift_def and_then_def)
qed

text \<open>
  C2.  On a well-formed listing (a payload whose \<open>value\<close> is a list of entries, each with a
  name and an id), \<open>get_response_id\<close> returns normally, issues nothing, and its result is
  the id of the first entry in listing order whose name is exactly \<open>n\<close>, or \<open>None\<close> when no
  entry has that name.
\<close>

theorem C2_get_response_id_first_match:
  assumes "entries_of p = Some items" and "list_all is_entry items"
  shows "get_response_id (Payload p) n log =
           (Inr (case find (named n) items of None \<Rightarrow> PNone | Some item \<Rightarrow> entry_id item), log)"
  using get_response_id_entries [OF assms] by (simp add: first_named_def)

text \<open>
  The listing holds \<open>documents\<close> (id a), \<open>Documents\<close> (id b) and \<open>Documents\<close> again (id c):
  the match is case-sensitive and the first of the duplicates wins.
\<close>

theorem C2_get_response_id_first_match_witness:
  "entries_of listing_with_duplicates \<noteq> None
   \<and> list_all is_entry (the (entries_of listing_with_duplicates))
   \<and> get_response_id (Payload listing_with_duplicates) ''Documents'' [] = (Inr (PStr ''b''), [])
   \<and> get_response_id (Payload listing_with_duplicates) ''DOCUMENTS'' [] = (Inr PNone, [])"
  using C2_get_response_id_first_match [of listing_with_duplicates _ "''Documents''" "[]"]
    C2_get_response_id_first_match [of listing_with_duplicates _ "''DOCUMENTS''" "[]"]
  by (simp add: listing_with_duplicates_def)

subsection \<open>The recursive search follows the search of the specification\<close>

lemma search_found_id: "search t es = (Found f, v) \<Longrightarrow> f \<in> set (target_ids t es)"
  by (induction t es arbitrary: f v rule: search.induct)
     (auto split: if_splits prod.splits outcome.splits)

lemma for_items_refines:
  "presents w self d h items es \<Longrightarrow> depth es \<le> n \<Longrightarrow> [] \<notin> set (target_ids t es) \<Longrightarrow>
   \<exists>r. for_items (\<lambda>sub lg. find_file n w self d sub t h lg) items t log
         = Some (r, log @ listing_events self d h (snd (search t es)))
       \<and> agrees (fst (search t es)) r"
proof (induction t es arbitrary: items n log rule: search.induct)
  case (1 t)
  then show ?case by (cases items) (simp_all add: listing_events_def)
next
  case (2 t nm i es)
  then obtain item rest where items: "items = item # rest" by (cases items) auto
  with 2 show ?case
    by (auto simp: file_item_def listing_events_def)
next
  case (3 t nm i cs es)
  then obtain item rest where items: "items = item # rest" by (cases items) auto
  from 3 items obtain sub where
    it: "folder_item item nm i" and
    sub: "folder_items w (children_url self d (PStr i)) h = Inr sub" and
    pc: "presents w self d h sub cs" and pr: "presents w self d h rest es"
    by (auto split: sum.splits)
  from 3 obtain n' where n: "n = Suc n'" and dc: "depth cs \<le> n'" and de: "depth es \<le> n"
    by (cases n) auto
  from 3 have ic: "[] \<notin> set (target_ids t cs)" and ie: "[] \<notin> set (target_ids t es)" by auto
  let ?log1 = "log @ [Get (children_url self d (PStr i)) h]"
  from "3.IH"(1) [OF pc dc ic, of ?log1] obtain r1 where
    r1: "for_items (\<lambda>sub lg. find_file n' w self d sub t h lg) sub t ?log1
          = Some (r1, ?log1 @ listing_events self d h (snd (search t cs)))"
    and a1: "agrees (fst (search t cs)) r1" by blast
  obtain o1 v1 where s1: "search t cs = (o1, v1)" by (cases "search t cs")
  show ?case
  proof (cases o1)
    case (Found f)
    with a1 s1 have "r1 = Inr (PStr f)" by simp
    moreover have "f \<noteq> []" using search_found_id [of t cs f v1] s1 Found ic by auto
    ultimately show ?thesis using r1 s1 Found it sub items n
      by (simp add: folder_item_def rewrap_run_def listing_events_def)
  next
    case NotFound
    with a1 s1 have r1': "r1 = Inr PNone" by simp
    from "3.IH"(2) [OF s1 [symmetric, unfolded NotFound] refl pr de ie,
        of "?log1 @ listing_events self d h v1"] obtain r2 where
      r2: "for_items (\<lambda>sub lg. find_file n w self d sub t h lg) rest t
             (?log1 @ listing_events self d h v1)
           = Some (r2, (?log1 @ listing_events self d h v1)
                        @ listing_events self d h (snd (search t es)))"
      and a2: "agrees (fst (search t es)) r2" by blast
    obtain o2 v2 where s2: "search t es = (o2, v2)" by (cases "search t es")
    show ?thesis using r1 r1' r2 a2 s1 s2 NotFound it sub items n
      by (simp add: folder_item_def rewrap_run_def listing_events_def)
  next
    case Aborted
    with a1 s1 obtain m where "r1 = Inl (RuntimeError m)" by (auto split: sum.splits exn.splits)
    then show ?thesis using r1 s1 Aborted it sub items n
      by (simp add: folder_item_def rewrap_run_def listing_events_def reraise_def)
  qed
next
  case (4 t nm i es)
  then obtain item rest where items: "items = item # rest" by (cases items) auto
  from 4 obtain n' where n: "n = Suc n'" by (cases n) auto
  from 4 items n show ?case
    by (auto simp: folder_item_def rewrap_run_def listing_events_def reraise_def isl_def)
next
  case (5 t nm i es)
  then obtain item rest where items: "items = item # rest" by (cases items) auto
  with 5 show ?case
    by (auto simp: other_item_def listing_events_def)
qed

lemma find_file_refines:
  assumes "serves w self d h root es" and "depth es < fuel" and "[] \<notin> set (target_ids t es)"
  shows "\<exists>r. find_file fuel w self d root t h log
               = Some (r, log @ Get (children_url self d root) h
                               # listing_events self d h (snd (search t es)))
             \<and> agrees (fst (search t es)) r"
proof -
  from assms(2) obtain n where fuel: "fuel = Suc n" and dn: "depth es \<le> n"
    by (cases fuel) auto
  from assms(1) obtain items where
    items: "folder_items w (children_url self d root) h = Inr items"
    and pr: "presents w self d h items es"
    by (auto simp: serves_def split: sum.splits)
  from for_items_refines [OF pr dn assms(3), of "log @ [Get (children_url self d root) h]"]
  obtain r where
    r: "for_items (\<lambda>sub lg. find_file n w self d sub t h lg) items t
          (log @ [Get (children_url self d root) h])
        = Some (r, (log @ [Get (children_url self d root) h])
                     @ listing_events self d h (snd (search t es)))"
    and a: "agrees (fst (search t es)) r" by blast
  show ?thesis
  proof (cases r)
    case (Inl e)
    with a obtain m where "e = RuntimeError m"
      by (cases "fst (search t es)") (auto split: exn.splits)
    with Inl r a fuel items show ?thesis
      by (cases "fst (search t es)") (auto simp: rewrap_run_def reraise_def)
  next
    case (Inr v)
    with r a fuel items show ?thesis
      by (auto simp: rewrap_run_def)
  qed
qed

subsection \<open>Scenario A and the search on folder trees\<close>

lemmas scenario_defs = scenario_world_def scenario_store_def site_def file_entry_def
  folder_entry_def listing_def error_payload_def bearer_def reports_tree_def
  children_url_def download_key_def folder_items_def and_then_def

lemma serves_scenario:
  "serves scenario_world site (PStr ''d1'') bearer (PStr ''r1'') reports_tree"
  by (simp add: serves_def scenario_defs file_item_def folder_item_def)


lemma search_no_broken: "no_broken es \<Longrightarrow> fst (search t es) \<noteq> Aborted"
  by (induction t es rule: search.induct) (auto split: prod.splits outcome.splits)

lemma search_absent:
  "target_ids t es = [] \<Longrightarrow> no_broken es \<Longrightarrow> search t es = (NotFound, folder_ids es)"
  by (induction t es rule: search.induct) (auto split: if_splits)

lemma for_items_spc:
  assumes "\<And>sub lg v lg'. rec1 sub lg = Some (Inr v, lg') \<Longrightarrow> rec2 sub lg = Some (Inr v, lg')"
  shows "for_items rec1 items t log = Some (Inr v, log')
         \<Longrightarrow> for_items rec2 items t log = Some (Inr v, log')"
proof (induction items arbitrary: log)
  case Nil
  then show ?case by simp
next
  case (Cons item rest)
  show ?case
  proof (cases "contains download_key item = Inr False \<and> contains ''folder'' item = Inr True
                \<and> (\<exists>sub. subscript item ''id'' = Inr sub)")
    case False
    with Cons show ?thesis
      by (auto split: sum.splits if_splits)
  next
    case True
    then obtain sub where sub: "subscript item ''id'' = Inr sub" by auto
    from Cons.prems True sub obtain r1 l1 where r1: "rec1 sub log = Some (r1, l1)"
      by (cases "rec1 sub log") auto
    show ?thesis
    proof (cases r1)
      case (Inl e)
      with Cons.prems True sub r1 show ?thesis by simp
    next
      case (Inr x)
      with r1 assms have "rec2 sub log = Some (Inr x, l1)" by simp
      with Cons.prems Cons.IH [of l1] True sub r1 Inr show ?thesis
        by (simp split: if_splits)
    qed
  qed
qed

lemma find_file_spc_same:
  "find_file n w self d f t h log = Some (Inr v, log')
   \<Longrightarrow> find_file_spc n w self d f t h log = Some (Inr v, log')"
proof (induction n arbitrary: f log v log')
  case 0
  then show ?case by simp
next
  case (Suc n)
  show ?case
  proof (cases "folder_items w (children_url self d f) h")
    case (Inl e)
    with Suc.prems show ?thesis by (simp add: rewrap_run_def)
  next
    case (Inr items)
    let ?log1 = "log @ [Get (children_url self d f) h]"
    from Suc.prems Inr have
      "for_items (\<lambda>sub lg. find_file n w self d sub t h lg) items t ?log1 = Some (Inr v, log')"
      by (auto simp: rewrap_run_def split: option.splits sum.splits)
    then have
      "for_items (\<lambda>sub lg. find_file_spc n w self d sub t h lg) items t ?log1 = Some (Inr v, log')"
      by (rule for_items_spc [rotated]) (rule Suc.IH)
    with Inr show ?thesis by (simp add: swallow_run_def)
  qed
qed

text \<open>
  C1.  Where the storage API presents a folder tree whose listings all succeed (and no
  file named \<open>t\<close> has the empty identifier, which Python takes for false), \<open>find_file\<close> of
  both files returns what the specification's search returns: entries are taken in
  listing order, a file named exactly \<open>t\<close> ends the search with its identifier, a folder is
  searched and a find inside it is handed up at once, anything else is skipped.  The
  listing requests issued are those of the folders the search visits, so none is issued
  after the match.
\<close>

theorem C1_find_file_follows_search:
  assumes "serves w self d h root es" and "no_broken es" and "depth es < fuel"
    and "[] \<notin> set (target_ids t es)"
  shows "\<exists>r. agrees (fst (search t es)) r
            \<and> find_file fuel w self d root t h log
                = Some (r, log @ Get (children_url self d root) h
                                # listing_events self d h (snd (search t es)))
            \<and> find_file_spc fuel w self d root t h log
                = Some (r, log @ Get (children_url self d root) h
                                # listing_events self d h (snd (search t es)))"
proof -
  from find_file_refines [OF assms(1,3,4), of log] obtain r where
    r: "find_file fuel w self d root t h log
          = Some (r, log @ Get (children_url self d root) h
                          # listing_events self d h (snd (search t es)))"
    and a: "agrees (fst (search t es)) r" by blast
  from search_no_broken [OF assms(2), of t] a obtain v where "r = Inr v"
    by (cases "fst (search t es)") auto
  with r a find_file_spc_same [of fuel w self d root t h log v] show ?thesis by auto
qed

text \<open>
  In scenario A with target \<open>Q2.xlsx\<close>: the file \<open>Q1.xlsx\<close> is passed over, \<open>Archive\<close> is
  searched, and its \<open>Q2.xlsx\<close> is handed up.
\<close>

theorem C1_find_file_follows_search_witness:
  "serves scenario_world site (PStr ''d1'') bearer (PStr ''r1'') reports_tree
   \<and> no_broken reports_tree \<and> depth reports_tree < 2
   \<and> search ''Q2.xlsx'' reports_tree = (Found ''f3'', [''a1''])
   \<and> find_file 2 scenario_world site (PStr ''d1'') (PStr ''r1'') ''Q2.xlsx'' bearer []
       = Some (Inr (PStr ''f3''), [Get (children_url site (PStr ''d1'') (PStr ''r1'')) bearer,
                                   Get (children_url site (PStr ''d1'') (PStr ''a1'')) bearer])
   \<and> find_file_spc 2 scenario_world site (PStr ''d1'') (PStr ''r1'') ''Q2.xlsx'' bearer []
       = Some (Inr (PStr ''f3''), [Get (children_url site (PStr ''d1'') (PStr ''r1'')) bearer,
                                   Get (children_url site (PStr ''d1'') (PStr ''a1'')) bearer])"
proof -
  have s: "serves scenario_world site (PStr ''d1'') bearer (PStr ''r1'') reports_tree"
    by (rule serves_scenario)
  have nb: "no_broken reports_tree" by (simp add: reports_tree_def)
  have dp: "depth reports_tree < 2" by (simp add: reports_tree_def)
  have ids: "[] \<notin> set (target_ids ''Q2.xlsx'' reports_tree)" by (simp add: reports_tree_def)
  have sr: "search ''Q2.xlsx'' reports_tree = (Found ''f3'', [''a1''])"
    by (simp add: reports_tree_def)
  from C1_find_file_follows_search [OF s nb dp ids, of "[]"] sr s nb dp
  show ?thesis by (auto simp: listing_events_def)
qed

lemma children_url_distinct:
  "distinct (map fmt ids) \<Longrightarrow> distinct (map (\<lambda>i. Get (children_url self d i) h) ids)"
  by (induction ids) (auto simp: children_url_def)

text \<open>
  C9.  For a finite folder tree without a file named \<open>t\<close>, whose listings all succeed,
  \<open>find_file\<close> returns (with a depth bound beyond the tree's depth) \<open>None\<close>, and the listing
  requests it issued are exactly one per folder of the tree: the root, then every folder,
  parents before children.  With distinct folder identifiers no request is repeated.
\<close>

theorem C9_absent_file_full_traversal:
  assumes "serves w self d h root es" and "no_broken es" and "depth es < fuel"
    and "target_ids t es = []"
  shows "find_file fuel w self d root t h log
           = Some (Inr PNone, log @ map (\<lambda>i. Get (children_url self d i) h)
                                        (root # map PStr (folder_ids es)))
         \<and> (distinct (fmt root # folder_ids es)
              \<longrightarrow> distinct (map (\<lambda>i. Get (children_url self d i) h)
                                 (root # map PStr (folder_ids es))))"
proof -
  from assms(4) have "[] \<notin> set (target_ids t es)" by simp
  from find_file_refines [OF assms(1,3) this, of log] search_absent [OF assms(4,2)]
  have "find_file fuel w self d root t h log
           = Some (Inr PNone, log @ map (\<lambda>i. Get (children_url self d i) h)
                                        (root # map PStr (folder_ids es)))"
    by (auto simp: listing_events_def comp_def)
  moreover have "distinct (fmt root # folder_ids es)
     \<Longrightarrow> distinct (map (\<lambda>i. Get (children_url self d i) h) (root # map PStr (folder_ids es)))"
    by (rule children_url_distinct) (simp add: comp_def)
  ultimately show ?thesis by blast
qed

text \<open>Scenario B: target \<open>Q3.xlsx\<close>, not found after listing \<open>Reports\<close> and \<open>Archive\<close>.\<close>

theorem C9_absent_file_full_traversal_witness:
  "serves scenario_world site (PStr ''d1'') bearer (PStr ''r1'') reports_tree
   \<and> no_broken reports_tree \<and> depth reports_tree < 2
   \<and> target_ids ''Q3.xlsx'' reports_tree = []
   \<and> distinct (fmt (PStr ''r1'') # folder_ids reports_tree)
   \<and> find_file 2 scenario_world site (PStr ''d1'') (PStr ''r1'') ''Q3.xlsx'' bearer []
       = Some (Inr PNone, [Get (children_url site (PStr ''d1'') (PStr ''r1'')) bearer,
                           Get (children_url site (PStr ''d1'') (PStr ''a1'')) bearer])"
proof -
  have s: "serves scenario_world site (PStr ''d1'') bearer (PStr ''r1'') reports_tree"
    by (rule serves_scenario)
  have nb: "no_broken reports_tree" by (simp add: reports_tree_def)
  have dp: "depth reports_tree < 2" by (simp add: reports_tree_def)
  have ids: "target_ids ''Q3.xlsx'' reports_tree = []" by (simp add: reports_tree_def)
  have fs: "folder_ids reports_tree = [''a1'']" by (simp add: reports_tree_def)
  from C9_absent_file_full_traversal [OF s nb dp ids, of "[]"] s nb dp ids fs
  show ?thesis by simp
qed

text \<open>
  C7.  Scenario A with target \<open>Q1.xlsx\<close> and folder match \<open>Reports\<close>: the locator gives
  drive d1 and root folder r1, the search returns f1, the identifier of \<open>Reports/Q1.xlsx\<close>,
  after the single listing request for \<open>Reports\<close>, and the whole run of \<open>download_file\<close>
  never requests the children of \<open>Archive\<close> (a1).
\<close>

theorem C7_scenario_A_no_descent:
  "get_drive_id scenario_world site ''Reports'' []
     = (Inr (PStr ''d1'', PStr ''r1''),
        [TokenRequest, Get (url site) bearer, Get (url site @ ''d1/root/children'') bearer])
   \<and> find_file 5 scenario_world site (PStr ''d1'') (PStr ''r1'') ''Q1.xlsx'' bearer []
     = Some (Inr (PStr ''f1''), [Get (children_url site (PStr ''d1'') (PStr ''r1'')) bearer])
   \<and> download_file 5 scenario_world site ''Q1.xlsx'' ''Reports'' []
     = Some (Inr PNone,
        [TokenRequest, TokenRequest,
         Get (url site) bearer,
         Get (url site @ ''d1/root/children'') bearer,
         Get (children_url site (PStr ''d1'') (PStr ''r1'')) bearer,
         Get (url site @ ''/d1/items/f1'') bearer,
         Retrieve (PStr ''https://download.example/f1'') (PStr ''Q1.xlsx''),
         Print baixado])
   \<and> children_url site (PStr ''d1'') (PStr ''a1'')
       \<notin> {url site, url site @ ''d1/root/children'',
           children_url site (PStr ''d1'') (PStr ''r1''), url site @ ''/d1/items/f1''}"
proof -
  have g: "get_drive_id scenario_world site ''Reports'' []
     = (Inr (PStr ''d1'', PStr ''r1''),
        [TokenRequest, Get (url site) bearer, Get (url site @ ''d1/root/children'') bearer])"
    by (simp add: scenario_defs get_drive_id_def get_token_def token_headers_def rewrap_def
        then_do_def emit_def lift_def http_get_def get_response_id_def returns_def)
  have f: "find_file 5 scenario_world site (PStr ''d1'') (PStr ''r1'') ''Q1.xlsx'' bearer []
     = Some (Inr (PStr ''f1''), [Get (children_url site (PStr ''d1'') (PStr ''r1'')) bearer])"
    by (simp add: eval_nat_numeral scenario_defs rewrap_run_def)
  have t: "get_token scenario_world [] = (Inr bearer, [TokenRequest])"
    by (simp add: scenario_defs get_token_def token_headers_def rewrap_def
        then_do_def emit_def lift_def)
  have dl: "download_file 5 scenario_world site ''Q1.xlsx'' ''Reports'' []
     = Some (Inr PNone,
        [TokenRequest, TokenRequest,
         Get (url site) bearer,
         Get (url site @ ''d1/root/children'') bearer,
         Get (children_url site (PStr ''d1'') (PStr ''r1'')) bearer,
         Get (url site @ ''/d1/items/f1'') bearer,
         Retrieve (PStr ''https://download.example/f1'') (PStr ''Q1.xlsx''),
         Print baixado])"
    by (simp add: eval_nat_numeral scenario_defs rewrap_run_def download_file_def then_run_def
        run_of_def fetch_and_save_def get_drive_id_def get_token_def token_headers_def rewrap_def
        then_do_def emit_def lift_def http_get_def get_response_id_def returns_def)
  have n: "children_url site (PStr ''d1'') (PStr ''a1'')
       \<notin> {url site, url site @ ''d1/root/children'',
           children_url site (PStr ''d1'') (PStr ''r1''), url site @ ''/d1/items/f1''}"
    by (simp add: children_url_def site_def)
  from g f dl n show ?thesis by blast
qed

end
